theory Spec2Isabelle
  imports Main
begin

section \<open>Data model\<close>

text \<open>
  The chat server keeps three pieces of process-wide state: the message log
  \<open>chatMessages\<close>, the presence counter \<open>onlineUsers\<close> and the vote ledger
  \<open>userVotes\<close>. Go's \<open>int\<close> is modelled as \<open>int\<close>: every counter below moves by
  one per call, so the 64-bit bound is out of reach of any execution. Strings are
  byte lists, as in Go. The mutexes are not modelled: every function below is one
  critical section, executed atomically.
\<close>

record Message =
  Username :: string
  Timestamp :: string
  PubKey :: string
  Content :: string
  Upvotes :: int
  Downvotes :: int
  UniqueID :: string
  System :: bool

text \<open>
  What the code reads from an \<open>ssh.Session\<close>: the user name and the marshalled
  public key, which is absent for a session without key authentication.
\<close>

record ssh_Session =
  User :: string
  PublicKey :: "string option"

text \<open>
  The two errors of \<open>voteMessage\<close>: \<open>errors.New("you have already voted this way")\<close>
  and \<open>errors.New("message not found")\<close>; \<open>ExternalError\<close> stands for an error value
  delivered to \<open>Update\<close> as a message.
\<close>

datatype error = DuplicateVoteError | MessageNotFoundError | ExternalError string

record state =
  chatMessages :: "Message list"
  onlineUsers :: int
  userVotes :: "string \<rightharpoonup> (string \<rightharpoonup> int)"

definition init_state :: state where
  "init_state = \<lparr>chatMessages = [], onlineUsers = 0, userVotes = Map.empty\<rparr>"

section \<open>Presence counter\<close>

definition incrementUsers :: "state \<Rightarrow> state" where
  "incrementUsers st = st\<lparr>onlineUsers := onlineUsers st + 1\<rparr>"

definition decrementUsers :: "state \<Rightarrow> state" where
  "decrementUsers st =
     (if onlineUsers st > 0 then st\<lparr>onlineUsers := onlineUsers st - 1\<rparr> else st)"

text \<open>A sequence of connect and disconnect notifications, applied from the left.\<close>

datatype presence_call = Increment | Decrement

fun presence_step :: "state \<Rightarrow> presence_call \<Rightarrow> state" where
  "presence_step st Increment = incrementUsers st"
| "presence_step st Decrement = decrementUsers st"

fun presence_run :: "state \<Rightarrow> presence_call list \<Rightarrow> state" where
  "presence_run st [] = st"
| "presence_run st (c # cs) = presence_run (presence_step st c) cs"

section \<open>Message ids and the vote ledger\<close>

text \<open>
  \<open>generateUniqueMessageID\<close> hashes the concatenation of user name, timestamp and
  content with SHA-256 and prints the digest in hexadecimal. The digest function
  is a parameter \<open>sha\<close> (bytes to hexadecimal digest).
\<close>

definition generateUniqueMessageID :: "(string \<Rightarrow> string) \<Rightarrow> Message \<Rightarrow> string" where
  "generateUniqueMessageID sha msg = sha (Username msg @ Timestamp msg @ Content msg)"

text \<open>Reading a Go map of ints at a missing key gives 0.\<close>

definition map_get :: "(string \<rightharpoonup> int) \<Rightarrow> string \<Rightarrow> int" where
  "map_get m k = (case m k of None \<Rightarrow> 0 | Some v \<Rightarrow> v)"

definition remove_previous_vote :: "int option \<Rightarrow> Message \<Rightarrow> Message" where
  "remove_previous_vote prev msg =
     (case prev of
        None \<Rightarrow> msg
      | Some prevVote \<Rightarrow>
          if prevVote > 0 then msg\<lparr>Upvotes := Upvotes msg - 1\<rparr>
          else if prevVote < 0 then msg\<lparr>Downvotes := Downvotes msg - 1\<rparr>
          else msg)"

definition add_new_vote :: "int \<Rightarrow> Message \<Rightarrow> Message" where
  "add_new_vote voteType msg =
     (if voteType > 0 then msg\<lparr>Upvotes := Upvotes msg + 1\<rparr>
      else msg\<lparr>Downvotes := Downvotes msg + 1\<rparr>)"

text \<open>
  The \<open>for i, msg := range chatMessages\<close> loop of \<open>voteMessage\<close>: the first message
  whose id matches is updated in place and the loop returns; \<open>None\<close> is the
  fall-through to "message not found".
\<close>

fun vote_loop :: "(string \<rightharpoonup> int) \<Rightarrow> string \<Rightarrow> int \<Rightarrow> Message list \<Rightarrow> Message list option" where
  "vote_loop uv messageID voteType [] = None"
| "vote_loop uv messageID voteType (msg # rest) =
     (if UniqueID msg = messageID
      then Some (add_new_vote voteType (remove_previous_vote (uv messageID) msg) # rest)
      else map_option ((#) msg) (vote_loop uv messageID voteType rest))"

definition voteMessage :: "state \<Rightarrow> ssh_Session \<Rightarrow> string \<Rightarrow> int \<Rightarrow> state \<times> error option" where
  "voteMessage st session messageID voteType =
     (let username = User session;
          st1 = (case userVotes st username of
                   None \<Rightarrow> st\<lparr>userVotes := (userVotes st)(username \<mapsto> Map.empty)\<rparr>
                 | Some _ \<Rightarrow> st);
          userVotesForMessage = (case userVotes st username of
                                   None \<Rightarrow> Map.empty
                                 | Some uv \<Rightarrow> uv)
      in if map_get userVotesForMessage messageID = voteType
         then (st1, Some DuplicateVoteError)
         else (case vote_loop userVotesForMessage messageID voteType (chatMessages st1) of
                 Some msgs \<Rightarrow>
                   (st1\<lparr>chatMessages := msgs,
                        userVotes := (userVotes st1)
                          (username \<mapsto> userVotesForMessage(messageID \<mapsto> voteType))\<rparr>,
                    None)
               | None \<Rightarrow> (st1, Some MessageNotFoundError)))"

text \<open>The voter's recorded direction for a message id, if any.\<close>

definition recorded :: "state \<Rightarrow> string \<Rightarrow> string \<Rightarrow> int option" where
  "recorded st username messageID =
     (case userVotes st username of None \<Rightarrow> None | Some uv \<Rightarrow> uv messageID)"

section \<open>Appending messages\<close>

text \<open>
  \<open>addMessage\<close> takes a session that may be nil. The timestamp
  \<open>time.Now().Format(...)\<close> is the parameter \<open>now\<close>.
\<close>

definition addMessage ::
  "(string \<Rightarrow> string) \<Rightarrow> string \<Rightarrow> state \<Rightarrow> ssh_Session option \<Rightarrow> string \<Rightarrow> bool \<Rightarrow> state" where
  "addMessage sha now st session message system =
     (let timestamp = now;
          username = (case session of None \<Rightarrow> ''Anonymous'' | Some s \<Rightarrow> User s);
          pubKey = (case session of
                      None \<Rightarrow> ''N/A''
                    | Some s \<Rightarrow> (case PublicKey s of None \<Rightarrow> ''N/A'' | Some key \<Rightarrow> sha key));
          msg = \<lparr>Username = username, Timestamp = timestamp, PubKey = pubKey,
                 Content = message, Upvotes = 0, Downvotes = 0, UniqueID = '''',
                 System = system\<rparr>;
          msg1 = (if \<not> system then msg\<lparr>UniqueID := generateUniqueMessageID sha msg\<rparr> else msg)
      in st\<lparr>chatMessages := chatMessages st @ [msg1]\<rparr>)"

definition getMessages :: "state \<Rightarrow> Message list" where
  "getMessages st = chatMessages st"

section \<open>The per-connection controller\<close>

text \<open>
  The text area and the viewport are widgets of an external library. Of the text
  area the model keeps the value, the focus flag, the width and the character
  limit; of the viewport the content and the dimensions (the scroll position set
  by \<open>GotoBottom\<close> is not modelled). The viewport content is the output of
  \<open>formatMessages\<close>, kept as structured data: one entry per rendered message, with
  the highlight flag of the selected one, instead of the styled string.
\<close>

record textarea_Model =
  ta_Value :: string
  ta_focus :: bool
  ta_width :: int
  ta_CharLimit :: int

datatype rendered = SystemLine string | MessageBox bool Message

record viewport_Model =
  vp_content :: "rendered list"
  vp_Width :: int
  vp_Height :: int

record model =
  session :: ssh_Session
  viewport :: viewport_Model
  textarea :: textarea_Model
  pty_term :: string
  width :: int
  height :: int
  err :: "error option"
  lastMessageCount :: int
  selectedMessage :: int
  isSelectMode :: bool

datatype key = KeyCtrlC | KeyEsc | KeyTab | KeyEnter | KeyUp | KeyDown | KeyRunes string | KeyOther

datatype msg = WindowSizeMsg int int | KeyMsg key | messagesUpdatedMsg | ErrorMsg error | OtherMsg

datatype cmd = Quit | Batch | NoCmd

text \<open>A Go run-time panic: indexing \<open>chatMessages\<close> out of range.\<close>

datatype panic = IndexOutOfRange

text \<open>
  What the controller takes from outside the repository: the SHA-256 digest, the
  clock, and the \<open>Update\<close> methods of the two widgets.
\<close>

record env =
  sha256_hex :: "string \<Rightarrow> string"
  time_now :: string
  textarea_Update :: "textarea_Model \<Rightarrow> msg \<Rightarrow> textarea_Model"
  viewport_Update :: "viewport_Model \<Rightarrow> msg \<Rightarrow> viewport_Model"

fun formatMessages_loop :: "model \<Rightarrow> nat \<Rightarrow> Message list \<Rightarrow> rendered list" where
  "formatMessages_loop m i [] = []"
| "formatMessages_loop m i (msg # rest) =
     (if isSelectMode m \<and> System msg then formatMessages_loop m (Suc i) rest
      else if System msg then SystemLine (Content msg) # formatMessages_loop m (Suc i) rest
      else MessageBox (isSelectMode m \<and> int i = selectedMessage m) msg
             # formatMessages_loop m (Suc i) rest)"

definition formatMessages :: "model \<Rightarrow> Message list \<Rightarrow> rendered list" where
  "formatMessages m messages = formatMessages_loop m 0 messages"

definition SetContent :: "model \<Rightarrow> rendered list \<Rightarrow> model" where
  "SetContent m c = m\<lparr>viewport := (viewport m)\<lparr>vp_content := c\<rparr>\<rparr>"

text \<open>
  \<open>teaHandler\<close>: announces the user with a system message, counts the connection
  and builds the initial model from the terminal's name and dimensions. The fields
  of the model that the code does not set have Go's zero values.
\<close>

definition teaHandler :: "env \<Rightarrow> state \<Rightarrow> ssh_Session \<Rightarrow> string \<Rightarrow> int \<Rightarrow> int \<Rightarrow> state \<times> model" where
  "teaHandler e st s pterm w h =
     (let st1 = addMessage (sha256_hex e) (time_now e) st None
                  (''Silly goober '' @ User s @ '' has made the mistake of joining the cult'') True;
          st2 = incrementUsers st1;
          ta = \<lparr>ta_Value = [], ta_focus = True, ta_width = w - 2, ta_CharLimit = 280\<rparr>;
          vp = \<lparr>vp_content = [], vp_Width = w, vp_Height = h - 5\<rparr>;
          existingMessages = getMessages st2;
          m = \<lparr>session = s, viewport = vp, textarea = ta, pty_term = pterm, width = w,
               height = h, err = None, lastMessageCount = 0, selectedMessage = 0,
               isSelectMode = False\<rparr>
      in (st2, SetContent m (formatMessages m existingMessages)))"

text \<open>
  The two navigation loops of \<open>Update\<close>. Each iteration moves the index by one
  unless it is at the boundary, then leaves the loop at the boundary or at a
  non-system message. The test \<open>chatMessages[m.selectedMessage].System\<close> panics
  when the index is out of range.
\<close>

function KeyUp_loop :: "Message list \<Rightarrow> int \<Rightarrow> panic + int" where
  "KeyUp_loop msgs sel =
     (let s = (if sel > 0 then sel - 1 else sel)
      in if s = 0 then Inr s
         else if s < 0 \<or> int (length msgs) \<le> s then Inl IndexOutOfRange
         else if \<not> System (msgs ! nat s) then Inr s
         else KeyUp_loop msgs s)"
  by pat_completeness auto
termination
  by (relation "measure (\<lambda>(msgs, sel). nat sel)") (auto split: if_splits)

function KeyDown_loop :: "Message list \<Rightarrow> int \<Rightarrow> panic + int" where
  "KeyDown_loop msgs sel =
     (let s = (if sel < int (length msgs) - 1 then sel + 1 else sel)
      in if s = int (length msgs) - 1 then Inr s
         else if s < 0 \<or> int (length msgs) \<le> s then Inl IndexOutOfRange
         else if \<not> System (msgs ! nat s) then Inr s
         else KeyDown_loop msgs s)"
  by pat_completeness auto
termination
  by (relation "measure (\<lambda>(msgs, sel). nat (int (length msgs) - sel))") (auto split: if_splits)

text \<open>The two equations recur without a guard, so they are unfolded by hand only.\<close>

declare KeyUp_loop.simps [simp del] KeyDown_loop.simps [simp del]

text \<open>The vote keys: \<open>u\<close>/\<open>U\<close> with vote type 1, \<open>d\<close>/\<open>D\<close> with vote type -1.\<close>

definition Update_vote :: "state \<Rightarrow> model \<Rightarrow> int \<Rightarrow> panic + (state \<times> model)" where
  "Update_vote st m voteType =
     (if int (length (chatMessages st)) > selectedMessage m then
        (if selectedMessage m < 0 then Inl IndexOutOfRange
         else
           (let selectedMsg = chatMessages st ! nat (selectedMessage m);
                r = voteMessage st (session m) (UniqueID selectedMsg) voteType
            in case snd r of
                 Some er \<Rightarrow> Inr (fst r, m\<lparr>err := Some er\<rparr>)
               | None \<Rightarrow> Inr (fst r, SetContent m (formatMessages m (getMessages (fst r))))))
      else Inr (st, m))"

fun Update_key :: "env \<Rightarrow> state \<Rightarrow> model \<Rightarrow> key \<Rightarrow> panic + (state \<times> model \<times> cmd)" where
  "Update_key e st m KeyCtrlC = Inr (decrementUsers st, m, Quit)"
| "Update_key e st m KeyEsc = Inr (decrementUsers st, m, Quit)"
| "Update_key e st m KeyTab =
     (let m1 = m\<lparr>isSelectMode := \<not> isSelectMode m\<rparr>
      in if isSelectMode m1
         then Inr (st, m1\<lparr>textarea := (textarea m1)\<lparr>ta_focus := False\<rparr>,
                          selectedMessage := int (length (chatMessages st)) - 1\<rparr>, Batch)
         else Inr (st, m1\<lparr>textarea := (textarea m1)\<lparr>ta_focus := True\<rparr>\<rparr>, Batch))"
| "Update_key e st m KeyEnter =
     (if \<not> isSelectMode m \<and> ta_Value (textarea m) \<noteq> []
      then (let st1 = addMessage (sha256_hex e) (time_now e) st (Some (session m))
                        (ta_Value (textarea m)) False;
                updatedMessages = getMessages st1;
                m1 = SetContent m (formatMessages m updatedMessages)
            in Inr (st1, m1\<lparr>textarea := (textarea m1)\<lparr>ta_Value := []\<rparr>\<rparr>, Batch))
      else Inr (st, m, Batch))"
| "Update_key e st m KeyUp =
     (if isSelectMode m
      then (case KeyUp_loop (chatMessages st) (selectedMessage m) of
              Inl p \<Rightarrow> Inl p
            | Inr s \<Rightarrow>
                (let m1 = m\<lparr>selectedMessage := s\<rparr>
                 in Inr (st, SetContent m1 (formatMessages m1 (getMessages st)), Batch)))
      else Inr (st, m, Batch))"
| "Update_key e st m KeyDown =
     (if isSelectMode m
      then (case KeyDown_loop (chatMessages st) (selectedMessage m) of
              Inl p \<Rightarrow> Inl p
            | Inr s \<Rightarrow>
                (let m1 = m\<lparr>selectedMessage := s\<rparr>
                 in Inr (st, SetContent m1 (formatMessages m1 (getMessages st)), Batch)))
      else Inr (st, m, Batch))"
| "Update_key e st m (KeyRunes str) =
     (if isSelectMode m
      then (if str = ''u'' \<or> str = ''U''
            then (case Update_vote st m 1 of
                    Inl p \<Rightarrow> Inl p
                  | Inr r \<Rightarrow> Inr (fst r, snd r, Batch))
            else if str = ''d'' \<or> str = ''D''
            then (case Update_vote st m (- 1) of
                    Inl p \<Rightarrow> Inl p
                  | Inr r \<Rightarrow> Inr (fst r, snd r, Batch))
            else Inr (st, m, Batch))
      else Inr (st, m, Batch))"
| "Update_key e st m KeyOther = Inr (st, m, Batch)"

text \<open>
  \<open>Update\<close>: the text area sees the message first, in input mode only, then the
  viewport, then the controller's own switch.
\<close>

definition Update :: "env \<Rightarrow> state \<Rightarrow> model \<Rightarrow> msg \<Rightarrow> panic + (state \<times> model \<times> cmd)" where
  "Update e st m0 message =
     (let m1 = (if \<not> isSelectMode m0
                then m0\<lparr>textarea := textarea_Update e (textarea m0) message\<rparr>
                else m0);
          m = m1\<lparr>viewport := viewport_Update e (viewport m1) message\<rparr>
      in case message of
           WindowSizeMsg w h \<Rightarrow>
             Inr (st,
                  m\<lparr>height := h, width := w,
                    textarea := (textarea m)\<lparr>ta_width := w - 2\<rparr>,
                    viewport := (viewport m)\<lparr>vp_Width := w, vp_Height := h - 5\<rparr>\<rparr>,
                  Batch)
         | KeyMsg k \<Rightarrow> Update_key e st m k
         | messagesUpdatedMsg \<Rightarrow>
             (let updatedMessages = getMessages st
              in if int (length updatedMessages) \<noteq> lastMessageCount m
                 then Inr (st,
                           (SetContent m (formatMessages m updatedMessages))
                             \<lparr>lastMessageCount := int (length updatedMessages),
                              selectedMessage := int (length updatedMessages) - 1\<rparr>,
                           Batch)
                 else Inr (st, m, Batch))
         | ErrorMsg er \<Rightarrow> Inr (st, m\<lparr>err := Some er\<rparr>, NoCmd)
         | OtherMsg \<Rightarrow> Inr (st, m, Batch))"

text \<open>A sequence of messages delivered to one controller; a panic ends the run.\<close>

fun Updates :: "env \<Rightarrow> state \<Rightarrow> model \<Rightarrow> msg list \<Rightarrow> panic + (state \<times> model)" where
  "Updates e st m [] = Inr (st, m)"
| "Updates e st m (x # xs) =
     (case Update e st m x of
        Inl p \<Rightarrow> Inl p
      | Inr r \<Rightarrow> Updates e (fst r) (fst (snd r)) xs)"

text \<open>What a run of \<open>Update\<close> leaves behind, for stating its effect field by field.\<close>

definition state_of :: "panic + (state \<times> model \<times> cmd) \<Rightarrow> state option" where
  "state_of r = (case r of Inl p \<Rightarrow> None | Inr x \<Rightarrow> Some (fst x))"

definition model_of :: "panic + (state \<times> model \<times> cmd) \<Rightarrow> model option" where
  "model_of r = (case r of Inl p \<Rightarrow> None | Inr x \<Rightarrow> Some (fst (snd x)))"

section \<open>Notions used by the properties\<close>

text \<open>
  A vote flip seen from the message: the counter of the previously recorded
  direction \<open>d\<close> loses one, the other counter gains one.
\<close>

definition flip_counters :: "int \<Rightarrow> Message \<Rightarrow> Message" where
  "flip_counters d msg =
     (if d > 0 then msg\<lparr>Upvotes := Upvotes msg - 1, Downvotes := Downvotes msg + 1\<rparr>
      else msg\<lparr>Downvotes := Downvotes msg - 1, Upvotes := Upvotes msg + 1\<rparr>)"

text \<open>
  \<open>flips n\<close>: the voter, whose recorded direction is \<open>d\<close>, votes the opposite
  direction \<open>n\<close> times in a row, each call against the direction the previous call
  recorded. \<open>direction_after n d\<close> is the direction on record after \<open>n\<close> flips.
\<close>

fun flips :: "nat \<Rightarrow> state \<Rightarrow> ssh_Session \<Rightarrow> string \<Rightarrow> int \<Rightarrow> state" where
  "flips 0 st voter messageID d = st"
| "flips (Suc n) st voter messageID d =
     flips n (fst (voteMessage st voter messageID (- d))) voter messageID (- d)"

definition direction_after :: "nat \<Rightarrow> int \<Rightarrow> int" where
  "direction_after n d = (if even n then d else - d)"

text \<open>Index \<open>i\<close> holds the first message of the log that carries the id.\<close>

definition first_with_id :: "Message list \<Rightarrow> string \<Rightarrow> nat \<Rightarrow> bool" where
  "first_with_id msgs messageID i \<longleftrightarrow>
     i < length msgs \<and> UniqueID (msgs ! i) = messageID
     \<and> messageID \<notin> set (map UniqueID (take i msgs))"

text \<open>The index lies within \<open>[0, len-1]\<close>.\<close>

definition in_range :: "Message list \<Rightarrow> int \<Rightarrow> bool" where
  "in_range msgs s \<longleftrightarrow> 0 \<le> s \<and> s < int (length msgs)"

text \<open>
  Where a navigation event may leave the index: on a non-system message, or at
  the boundary the event moves towards.
\<close>

definition stops_at :: "Message list \<Rightarrow> msg \<Rightarrow> int \<Rightarrow> bool" where
  "stops_at msgs ev s \<longleftrightarrow>
     \<not> System (msgs ! nat s)
     \<or> (ev = KeyMsg KeyUp \<and> s = 0)
     \<or> (ev = KeyMsg KeyDown \<and> s = int (length msgs) - 1)"

text \<open>
  Following the specification's words, not the code: the index of the most recent
  non-system message, found by scanning backward from the end of the log and
  skipping system messages; \<open>None\<close> when the log has no non-system message.
\<close>

fun spec_scan_backward :: "Message list \<Rightarrow> nat \<Rightarrow> nat option" where
  "spec_scan_backward msgs 0 = None"
| "spec_scan_backward msgs (Suc i) =
     (if \<not> System (msgs ! i) then Some i else spec_scan_backward msgs i)"

definition spec_newest_non_system :: "Message list \<Rightarrow> nat option" where
  "spec_newest_non_system msgs = spec_scan_backward msgs (length msgs)"

text \<open>The line break the text area inserts on the enter key.\<close>

definition line_break :: string where
  "line_break = [CHR 0x0A]"



section \<open>Concrete sessions and states\<close>

text \<open>
  A stand-in digest and stand-in widgets, for evaluating the definitions on
  concrete inputs. The text area \<open>ta_enter\<close> does what the library's widget does
  with the enter key: when it has the focus it ends its text with a line break
  (the cursor being at the end of the text); every other message leaves it as it
  is, typed text being put into the model directly. The viewport is inert.
\<close>

definition demo_digest :: "string \<Rightarrow> string" where
  "demo_digest s = CHR ''#'' # s"

definition ta_enter :: "textarea_Model \<Rightarrow> msg \<Rightarrow> textarea_Model" where
  "ta_enter ta message =
     (if message = KeyMsg KeyEnter \<and> ta_focus ta
      then ta\<lparr>ta_Value := ta_Value ta @ line_break\<rparr>
      else ta)"

definition vp_ignore :: "viewport_Model \<Rightarrow> msg \<Rightarrow> viewport_Model" where
  "vp_ignore vp message = vp"

definition demo_env :: env where
  "demo_env = \<lparr>sha256_hex = demo_digest, time_now = ''12:00'',
               textarea_Update = ta_enter, viewport_Update = vp_ignore\<rparr>"

definition alice :: ssh_Session where
  "alice = \<lparr>User = ''alice'', PublicKey = None\<rparr>"

definition bob :: ssh_Session where
  "bob = \<lparr>User = ''bob'', PublicKey = Some ''key-1''\<rparr>"

definition other_bob :: ssh_Session where
  "other_bob = \<lparr>User = ''bob'', PublicKey = Some ''key-2''\<rparr>"

text \<open>The log after \<open>main\<close> has posted its welcome: one system message.\<close>

definition main_state :: state where
  "main_state = addMessage demo_digest ''12:00'' init_state None ''Welcome to letsgosky.social'' True"

text \<open>Then alice submits "hello": the log is the welcome and her message.\<close>

definition hello_state :: state where
  "hello_state = addMessage demo_digest ''12:00'' main_state (Some alice) ''hello'' False"

definition hello_id :: string where
  "hello_id = ''#alice12:00hello''"

text \<open>Then bob connects: his join notice, a system message, is now the last entry.\<close>

definition bob_state :: state where
  "bob_state = fst (teaHandler demo_env hello_state bob ''xterm'' 80 24)"

definition bob_model :: model where
  "bob_model = snd (teaHandler demo_env hello_state bob ''xterm'' 80 24)"

text \<open>The state after bob has upvoted alice's message.\<close>

definition bob_up_state :: state where
  "bob_up_state = fst (voteMessage bob_state bob hello_id 1)"

text \<open>Bob's controller in selection mode, on alice's message.\<close>

definition bob_selecting :: model where
  "bob_selecting = bob_model\<lparr>isSelectMode := True, selectedMessage := 1\<rparr>"

text \<open>Bob's controller in input mode with text typed into the text area.\<close>

definition bob_typed :: "string \<Rightarrow> model" where
  "bob_typed s = bob_model\<lparr>textarea := (textarea bob_model)\<lparr>ta_Value := s\<rparr>\<rparr>"

text \<open>Bob connects right after \<open>main\<close>: the log holds two system messages and nothing else.\<close>

definition lobby_state :: state where
  "lobby_state = fst (teaHandler demo_env main_state bob ''xterm'' 80 24)"

definition lobby_model :: model where
  "lobby_model = snd (teaHandler demo_env main_state bob ''xterm'' 80 24)"

text \<open>The log a run of \<open>Update\<close> or \<open>Updates\<close> leaves behind.\<close>

definition log_of :: "panic + (state \<times> model \<times> cmd) \<Rightarrow> Message list option" where
  "log_of r = map_option chatMessages (state_of r)"

definition final_log :: "panic + (state \<times> model) \<Rightarrow> Message list option" where
  "final_log r = (case r of Inl p \<Rightarrow> None | Inr x \<Rightarrow> Some (chatMessages (fst x)))"

definition selected_of :: "panic + (state \<times> model \<times> cmd) \<Rightarrow> int option" where
  "selected_of r = map_option selectedMessage (model_of r)"

text \<open>Bob's controller browsing alice's message, having seen all three entries of the log.\<close>

definition bob_browsing :: model where
  "bob_browsing = bob_selecting\<lparr>lastMessageCount := 3\<rparr>"

section \<open>Evaluating the concrete states\<close>

lemma chatMessages_main_state:
  "chatMessages main_state =
     [\<lparr>Username = ''Anonymous'', Timestamp = ''12:00'', PubKey = ''N/A'',
       Content = ''Welcome to letsgosky.social'', Upvotes = 0, Downvotes = 0,
       UniqueID = [], System = True\<rparr>]"
  by (simp add: main_state_def addMessage_def init_state_def)

lemma chatMessages_hello_state:
  "chatMessages hello_state =
     [\<lparr>Username = ''Anonymous'', Timestamp = ''12:00'', PubKey = ''N/A'',
       Content = ''Welcome to letsgosky.social'', Upvotes = 0, Downvotes = 0,
       UniqueID = [], System = True\<rparr>,
      \<lparr>Username = ''alice'', Timestamp = ''12:00'', PubKey = ''N/A'',
       Content = ''hello'', Upvotes = 0, Downvotes = 0,
       UniqueID = ''#alice12:00hello'', System = False\<rparr>]"
  by (simp add: hello_state_def addMessage_def Let_def chatMessages_main_state alice_def
      generateUniqueMessageID_def demo_digest_def)

lemma chatMessages_bob_state:
  "chatMessages bob_state =
     [\<lparr>Username = ''Anonymous'', Timestamp = ''12:00'', PubKey = ''N/A'',
       Content = ''Welcome to letsgosky.social'', Upvotes = 0, Downvotes = 0,
       UniqueID = [], System = True\<rparr>,
      \<lparr>Username = ''alice'', Timestamp = ''12:00'', PubKey = ''N/A'',
       Content = ''hello'', Upvotes = 0, Downvotes = 0,
       UniqueID = ''#alice12:00hello'', System = False\<rparr>,
      \<lparr>Username = ''Anonymous'', Timestamp = ''12:00'', PubKey = ''N/A'',
       Content = ''Silly goober bob has made the mistake of joining the cult'',
       Upvotes = 0, Downvotes = 0, UniqueID = [], System = True\<rparr>]"
  by (simp add: bob_state_def teaHandler_def Let_def addMessage_def incrementUsers_def
      chatMessages_hello_state demo_env_def bob_def)

lemma userVotes_bob_state: "userVotes bob_state = Map.empty"
  by (simp add: bob_state_def teaHandler_def Let_def addMessage_def incrementUsers_def
      hello_state_def main_state_def init_state_def)

lemma bob_model_mode:
  "isSelectMode bob_model = False" "selectedMessage bob_model = 0"
  "lastMessageCount bob_model = 0" "session bob_model = bob"
  "ta_Value (textarea bob_model) = []"
  by (simp_all add: bob_model_def teaHandler_def Let_def SetContent_def)

lemma chatMessages_bob_up_state:
  "chatMessages bob_up_state =
     [\<lparr>Username = ''Anonymous'', Timestamp = ''12:00'', PubKey = ''N/A'',
       Content = ''Welcome to letsgosky.social'', Upvotes = 0, Downvotes = 0,
       UniqueID = [], System = True\<rparr>,
      \<lparr>Username = ''alice'', Timestamp = ''12:00'', PubKey = ''N/A'',
       Content = ''hello'', Upvotes = 1, Downvotes = 0,
       UniqueID = ''#alice12:00hello'', System = False\<rparr>,
      \<lparr>Username = ''Anonymous'', Timestamp = ''12:00'', PubKey = ''N/A'',
       Content = ''Silly goober bob has made the mistake of joining the cult'',
       Upvotes = 0, Downvotes = 0, UniqueID = [], System = True\<rparr>]"
  by (simp add: bob_up_state_def voteMessage_def Let_def userVotes_bob_state map_get_def
      chatMessages_bob_state hello_id_def add_new_vote_def remove_previous_vote_def)

lemma recorded_bob_up_state: "recorded bob_up_state ''bob'' hello_id = Some 1"
  by (simp add: bob_up_state_def voteMessage_def Let_def userVotes_bob_state map_get_def
      chatMessages_bob_state hello_id_def recorded_def bob_def)

section \<open>Duplicate votes\<close>

lemma vote_same_direction:
  assumes "recorded st (User voter) messageID = Some direction"
  shows "voteMessage st voter messageID direction = (st, Some DuplicateVoteError)"
proof -
  from assms obtain uv where "userVotes st (User voter) = Some uv" "uv messageID = Some direction"
    by (auto simp: recorded_def split: option.splits)
  then show ?thesis by (simp add: voteMessage_def map_get_def)
qed

text \<open>
  C1. When the direction a voter has on record for a message id equals the
  direction passed to \<open>voteMessage\<close>, the call returns the duplicate-vote error
  and the whole shared state is returned as it was: no counter of any message and
  no recorded direction changes.
\<close>

theorem vote_duplicate_rejected:
  assumes "recorded st (User voter) messageID = Some direction"
  shows "voteMessage st voter messageID direction = (st, Some DuplicateVoteError)"
  using assms by (rule vote_same_direction)

theorem vote_duplicate_rejected_witness:
  "recorded bob_up_state (User bob) hello_id = Some 1
   \<and> voteMessage bob_up_state bob hello_id 1 = (bob_up_state, Some DuplicateVoteError)
   \<and> Upvotes (chatMessages bob_up_state ! 1) = 1"
proof -
  have h: "recorded bob_up_state (User bob) hello_id = Some 1"
    using recorded_bob_up_state by (simp add: bob_def)
  show ?thesis
    using h vote_duplicate_rejected [OF h] by (simp add: chatMessages_bob_up_state)
qed

section \<open>Flipping a vote\<close>

lemma vote_loop_first:
  "first_with_id msgs messageID i \<Longrightarrow>
   vote_loop uv messageID voteType msgs =
     Some (msgs[i := add_new_vote voteType (remove_previous_vote (uv messageID) (msgs ! i))])"
proof (induction msgs arbitrary: i)
  case Nil
  then show ?case by (simp add: first_with_id_def)
next
  case (Cons msg rest)
  show ?case
  proof (cases i)
    case 0
    with Cons.prems show ?thesis by (simp add: first_with_id_def)
  next
    case (Suc k)
    with Cons.prems have "UniqueID msg \<noteq> messageID" and "first_with_id rest messageID k"
      by (auto simp: first_with_id_def)
    with Cons.IH [of k] Suc show ?thesis by simp
  qed
qed

lemma flip_as_undo_redo:
  "d \<noteq> 0 \<Longrightarrow> add_new_vote (- d) (remove_previous_vote (Some d) msg) = flip_counters d msg"
  by (simp add: add_new_vote_def remove_previous_vote_def flip_counters_def)

lemma UniqueID_flip_counters: "UniqueID (flip_counters d msg) = UniqueID msg"
  by (simp add: flip_counters_def)

lemma first_with_id_update:
  "first_with_id msgs messageID i \<Longrightarrow> UniqueID y = messageID \<Longrightarrow>
   first_with_id (msgs[i := y]) messageID i"
  by (simp add: first_with_id_def)

lemma vote_flip_step:
  assumes d: "d \<noteq> 0"
    and rec: "recorded st (User voter) messageID = Some d"
    and first: "first_with_id (chatMessages st) messageID i"
  shows "snd (voteMessage st voter messageID (- d)) = None"
    and "chatMessages (fst (voteMessage st voter messageID (- d))) =
           (chatMessages st)[i := flip_counters d (chatMessages st ! i)]"
    and "recorded (fst (voteMessage st voter messageID (- d))) (User voter) messageID = Some (- d)"
proof -
  from rec obtain uv where uv: "userVotes st (User voter) = Some uv" "uv messageID = Some d"
    by (auto simp: recorded_def split: option.splits)
  from d have ne: "d \<noteq> - d" by simp
  have loop: "vote_loop uv messageID (- d) (chatMessages st) =
      Some ((chatMessages st)[i := flip_counters d (chatMessages st ! i)])"
    using vote_loop_first [OF first, of uv "- d"] uv(2) d by (simp add: flip_as_undo_redo)
  show "snd (voteMessage st voter messageID (- d)) = None"
    using uv ne loop by (simp add: voteMessage_def map_get_def)
  show "chatMessages (fst (voteMessage st voter messageID (- d))) =
           (chatMessages st)[i := flip_counters d (chatMessages st ! i)]"
    using uv ne loop by (simp add: voteMessage_def map_get_def)
  show "recorded (fst (voteMessage st voter messageID (- d))) (User voter) messageID = Some (- d)"
    using uv ne loop by (simp add: voteMessage_def map_get_def recorded_def)
qed

lemma direction_after_Suc: "direction_after (Suc n) d = direction_after n (- d)"
  by (simp add: direction_after_def)

text \<open>
  C2. A voter has direction \<open>d\<close> (any non-zero vote type; the code passes 1 and -1)
  on record for a message of the log. After any number \<open>n\<close> of successive flips the
  record holds \<open>d\<close> or its opposite, and the next vote for the opposite of the
  recorded direction succeeds, changes the log in exactly one place, the message
  with that id, whose counter of the previously recorded direction goes down by one
  and whose other counter goes up by one, and records the new direction.
\<close>

theorem vote_flip_any_number:
  assumes "d \<noteq> 0"
    and "recorded st (User voter) messageID = Some d"
    and "first_with_id (chatMessages st) messageID i"
  shows "recorded (flips n st voter messageID d) (User voter) messageID
           = Some (direction_after n d)
         \<and> snd (voteMessage (flips n st voter messageID d) voter messageID
                  (- direction_after n d)) = None
         \<and> chatMessages (fst (voteMessage (flips n st voter messageID d) voter messageID
                  (- direction_after n d)))
             = (chatMessages (flips n st voter messageID d))
                 [i := flip_counters (direction_after n d)
                         (chatMessages (flips n st voter messageID d) ! i)]
         \<and> recorded (fst (voteMessage (flips n st voter messageID d) voter messageID
                  (- direction_after n d))) (User voter) messageID
             = Some (- direction_after n d)"
  using assms
proof (induction n arbitrary: st d)
  case 0
  then show ?case
    using vote_flip_step [of d st voter messageID i] by (simp add: direction_after_def)
next
  case (Suc n)
  let ?st1 = "fst (voteMessage st voter messageID (- d))"
  have 1: "- d \<noteq> 0" using Suc.prems(1) by simp
  have 2: "recorded ?st1 (User voter) messageID = Some (- d)"
    using vote_flip_step(3) [OF Suc.prems] .
  have 3: "first_with_id (chatMessages ?st1) messageID i"
    using vote_flip_step(2) [OF Suc.prems] Suc.prems(3)
    by (simp add: first_with_id_update UniqueID_flip_counters first_with_id_def)
  from Suc.IH [OF 1 2 3] show ?case
    by (simp only: flips.simps direction_after_Suc)
qed

theorem vote_flip_any_number_witness:
  "(1::int) \<noteq> 0
   \<and> recorded bob_up_state (User bob) hello_id = Some 1
   \<and> first_with_id (chatMessages bob_up_state) hello_id 1
   \<and> snd (voteMessage bob_up_state bob hello_id (- 1)) = None
   \<and> chatMessages (fst (voteMessage bob_up_state bob hello_id (- 1)))
       = (chatMessages bob_up_state)[1 := flip_counters 1 (chatMessages bob_up_state ! 1)]
   \<and> Upvotes (flip_counters 1 (chatMessages bob_up_state ! 1)) = 0
   \<and> Downvotes (flip_counters 1 (chatMessages bob_up_state ! 1)) = 1
   \<and> recorded (flips 3 bob_up_state bob hello_id 1) (User bob) hello_id = Some (- 1)
   \<and> snd (voteMessage (flips 3 bob_up_state bob hello_id 1) bob hello_id 1) = None
   \<and> chatMessages (fst (voteMessage (flips 3 bob_up_state bob hello_id 1) bob hello_id 1))
       = (chatMessages (flips 3 bob_up_state bob hello_id 1))
           [1 := flip_counters (- 1) (chatMessages (flips 3 bob_up_state bob hello_id 1) ! 1)]"
proof -
  have h1: "(1::int) \<noteq> 0" by simp
  have h2: "recorded bob_up_state (User bob) hello_id = Some 1"
    using recorded_bob_up_state by (simp add: bob_def)
  have h3: "first_with_id (chatMessages bob_up_state) hello_id 1"
    by (simp add: first_with_id_def chatMessages_bob_up_state hello_id_def)
  have three: "direction_after 3 1 = - 1" by (simp add: direction_after_def)
  note t0 = vote_flip_any_number [OF h1 h2 h3, of 0]
  note t3 = vote_flip_any_number [OF h1 h2 h3, of 3, unfolded three]
  have zero: "snd (voteMessage bob_up_state bob hello_id (- 1)) = None"
    "chatMessages (fst (voteMessage bob_up_state bob hello_id (- 1)))
       = (chatMessages bob_up_state)[1 := flip_counters 1 (chatMessages bob_up_state ! 1)]"
    using t0 by (simp_all add: direction_after_def)
  have counters: "Upvotes (flip_counters 1 (chatMessages bob_up_state ! 1)) = 0"
    "Downvotes (flip_counters 1 (chatMessages bob_up_state ! 1)) = 1"
    by (simp_all add: chatMessages_bob_up_state flip_counters_def)
  have later: "recorded (flips 3 bob_up_state bob hello_id 1) (User bob) hello_id = Some (- 1)"
    "snd (voteMessage (flips 3 bob_up_state bob hello_id 1) bob hello_id 1) = None"
    "chatMessages (fst (voteMessage (flips 3 bob_up_state bob hello_id 1) bob hello_id 1))
       = (chatMessages (flips 3 bob_up_state bob hello_id 1))
           [1 := flip_counters (- 1) (chatMessages (flips 3 bob_up_state bob hello_id 1) ! 1)]"
    using t3 by simp_all
  show ?thesis
    by (intro conjI; fact h1 h2 h3 zero counters later)
qed

section \<open>Votes are keyed by the user name\<close>

text \<open>
  C9. \<open>voteMessage\<close> reads nothing of the session but the user name: two sessions
  with the same name behave identically whatever their public keys, and they share
  one vote record, so a direction one of them has just voted is a duplicate for
  the other.
\<close>

theorem vote_keyed_by_name:
  assumes "User s1 = User s2"
  shows "voteMessage st s1 messageID voteType = voteMessage st s2 messageID voteType
         \<and> (snd (voteMessage st s1 messageID voteType) = None \<longrightarrow>
              snd (voteMessage (fst (voteMessage st s1 messageID voteType)) s2 messageID voteType)
                = Some DuplicateVoteError)"
proof -
  have same: "voteMessage st s1 messageID voteType = voteMessage st s2 messageID voteType"
    using assms by (simp add: voteMessage_def)
  have "recorded (fst (voteMessage st s1 messageID voteType)) (User s2) messageID = Some voteType"
    if "snd (voteMessage st s1 messageID voteType) = None"
    using that assms
    by (auto simp: voteMessage_def Let_def recorded_def split: if_splits option.splits)
  with same show ?thesis by (simp add: vote_same_direction)
qed

theorem vote_keyed_by_name_witness:
  "User bob = User other_bob \<and> PublicKey bob \<noteq> PublicKey other_bob
   \<and> voteMessage bob_state bob hello_id 1 = voteMessage bob_state other_bob hello_id 1
   \<and> snd (voteMessage bob_state bob hello_id 1) = None
   \<and> snd (voteMessage (fst (voteMessage bob_state bob hello_id 1)) other_bob hello_id 1)
       = Some DuplicateVoteError"
proof -
  have h: "User bob = User other_bob" by (simp add: bob_def other_bob_def)
  have k: "PublicKey bob \<noteq> PublicKey other_bob" by (simp add: bob_def other_bob_def)
  have ok: "snd (voteMessage bob_state bob hello_id 1) = None"
    by (simp add: voteMessage_def Let_def userVotes_bob_state map_get_def
        chatMessages_bob_state hello_id_def)
  note t = vote_keyed_by_name [OF h, of bob_state hello_id 1]
  from t have same: "voteMessage bob_state bob hello_id 1 = voteMessage bob_state other_bob hello_id 1"
    by (rule conjunct1)
  from t ok have dup: "snd (voteMessage (fst (voteMessage bob_state bob hello_id 1)) other_bob hello_id 1)
      = Some DuplicateVoteError" by blast
  from h k same ok dup show ?thesis by blast
qed

section \<open>The presence counter\<close>

lemma presence_step_nonneg: "0 \<le> onlineUsers st \<Longrightarrow> 0 \<le> onlineUsers (presence_step st c)"
  by (cases c) (simp_all add: incrementUsers_def decrementUsers_def)

lemma presence_run_nonneg: "0 \<le> onlineUsers st \<Longrightarrow> 0 \<le> onlineUsers (presence_run st cs)"
  by (induction cs arbitrary: st) (simp_all add: presence_step_nonneg)

text \<open>
  The other operations keep the count non-negative as well: appending and voting
  do not touch it, a new connection adds one, and \<open>Update\<close> changes it only through
  \<open>decrementUsers\<close> on the quit keys.
\<close>

lemma onlineUsers_addMessage:
  "onlineUsers (addMessage sha now st sess content system) = onlineUsers st"
  by (simp add: addMessage_def Let_def)

lemma onlineUsers_voteMessage:
  "onlineUsers (fst (voteMessage st voter messageID voteType)) = onlineUsers st"
  by (simp add: voteMessage_def Let_def split: option.splits)

lemma onlineUsers_teaHandler:
  "onlineUsers (fst (teaHandler e st s pterm w h)) = onlineUsers st + 1"
  by (simp add: teaHandler_def Let_def incrementUsers_def onlineUsers_addMessage)

lemma onlineUsers_Update_key:
  assumes "Update_key e st m k = Inr (st', m', c)" and "0 \<le> onlineUsers st"
  shows "0 \<le> onlineUsers st'"
  using assms
  by (cases k)
     (auto simp: Let_def decrementUsers_def onlineUsers_addMessage onlineUsers_voteMessage
        Update_vote_def split: if_splits sum.splits option.splits)

lemma onlineUsers_Update:
  assumes "Update e st m x = Inr (st', m', c)" and "0 \<le> onlineUsers st"
  shows "0 \<le> onlineUsers st'"
  using assms
  by (cases x) (auto simp: Update_def Let_def dest: onlineUsers_Update_key split: if_splits)

text \<open>
  C10. \<open>incrementUsers\<close> adds one; \<open>decrementUsers\<close> subtracts one from a positive
  count and leaves a zero count as it is; starting from the initial count 0, no
  sequence of the two calls makes the count negative.
\<close>

theorem presence_never_negative:
  "onlineUsers (incrementUsers st) = onlineUsers st + 1
   \<and> (0 < onlineUsers st \<longrightarrow> onlineUsers (decrementUsers st) = onlineUsers st - 1)
   \<and> (onlineUsers st = 0 \<longrightarrow> decrementUsers st = st)
   \<and> 0 \<le> onlineUsers (presence_run init_state calls)"
proof -
  have "0 \<le> onlineUsers (presence_run init_state calls)"
    by (rule presence_run_nonneg) (simp add: init_state_def)
  then show ?thesis by (simp add: incrementUsers_def decrementUsers_def)
qed

theorem presence_never_negative_witness:
  "0 < onlineUsers bob_state \<and> onlineUsers (decrementUsers bob_state) = 0
   \<and> onlineUsers init_state = 0 \<and> decrementUsers init_state = init_state
   \<and> 0 \<le> onlineUsers (presence_run init_state [Decrement, Increment, Decrement, Decrement])"
proof -
  have p: "onlineUsers bob_state = 1"
    by (simp add: bob_state_def teaHandler_def Let_def addMessage_def incrementUsers_def
        hello_state_def main_state_def init_state_def)
  have z: "onlineUsers init_state = 0" by (simp add: init_state_def)
  note t1 = presence_never_negative [of bob_state "[]"]
  note t2 = presence_never_negative [of init_state "[Decrement, Increment, Decrement, Decrement]"]
  from t1 p have d: "onlineUsers (decrementUsers bob_state) = 0" by simp
  from t2 z have n: "decrementUsers init_state = init_state" by blast
  from t2 have r: "0 \<le> onlineUsers (presence_run init_state [Decrement, Increment, Decrement, Decrement])"
    by blast
  from p z d n r show ?thesis by simp
qed

section \<open>Navigation in selection mode\<close>

lemma KeyUp_loop_in_range:
  "in_range msgs sel \<Longrightarrow>
   \<exists>s. KeyUp_loop msgs sel = Inr s \<and> in_range msgs s \<and> (s = 0 \<or> \<not> System (msgs ! nat s))"
proof (induction msgs sel rule: KeyUp_loop.induct)
  case (1 msgs sel)
  let ?s = "if sel > 0 then sel - 1 else sel"
  have rng: "in_range msgs ?s" using "1.prems" by (auto simp: in_range_def)
  show ?case
  proof (cases "?s = 0 \<or> \<not> System (msgs ! nat ?s)")
    case True
    with rng show ?thesis
      by (subst KeyUp_loop.simps) (auto simp: in_range_def Let_def)
  next
    case False
    with rng have "\<exists>s. KeyUp_loop msgs ?s = Inr s \<and> in_range msgs s \<and> (s = 0 \<or> \<not> System (msgs ! nat s))"
      by (intro "1.IH") (auto simp: in_range_def)
    with False rng show ?thesis
      by (subst KeyUp_loop.simps) (auto simp: in_range_def Let_def)
  qed
qed

lemma KeyDown_loop_in_range:
  "in_range msgs sel \<Longrightarrow>
   \<exists>s. KeyDown_loop msgs sel = Inr s \<and> in_range msgs s
       \<and> (s = int (length msgs) - 1 \<or> \<not> System (msgs ! nat s))"
proof (induction msgs sel rule: KeyDown_loop.induct)
  case (1 msgs sel)
  let ?s = "if sel < int (length msgs) - 1 then sel + 1 else sel"
  have rng: "in_range msgs ?s" using "1.prems" by (auto simp: in_range_def)
  show ?case
  proof (cases "?s = int (length msgs) - 1 \<or> \<not> System (msgs ! nat ?s)")
    case True
    with rng show ?thesis
      by (subst KeyDown_loop.simps) (auto simp: in_range_def Let_def)
  next
    case False
    with rng have "\<exists>s. KeyDown_loop msgs ?s = Inr s \<and> in_range msgs s
        \<and> (s = int (length msgs) - 1 \<or> \<not> System (msgs ! nat s))"
      by (intro "1.IH") (auto simp: in_range_def)
    with False rng show ?thesis
      by (subst KeyDown_loop.simps) (auto simp: in_range_def Let_def)
  qed
qed

lemma Update_navigate:
  assumes "isSelectMode m" and "in_range (chatMessages st) (selectedMessage m)"
    and "ev = KeyMsg KeyUp \<or> ev = KeyMsg KeyDown"
  shows "\<exists>m' c. Update e st m ev = Inr (st, m', c) \<and> isSelectMode m'
           \<and> in_range (chatMessages st) (selectedMessage m')
           \<and> stops_at (chatMessages st) ev (selectedMessage m')"
proof -
  from assms(3) show ?thesis
  proof
    assume ev: "ev = KeyMsg KeyUp"
    from KeyUp_loop_in_range [OF assms(2)] obtain s where
      "KeyUp_loop (chatMessages st) (selectedMessage m) = Inr s" "in_range (chatMessages st) s"
      "s = 0 \<or> \<not> System (chatMessages st ! nat s)" by blast
    with assms(1) ev show ?thesis
      by (auto simp: Update_def Let_def SetContent_def stops_at_def)
  next
    assume ev: "ev = KeyMsg KeyDown"
    from KeyDown_loop_in_range [OF assms(2)] obtain s where
      "KeyDown_loop (chatMessages st) (selectedMessage m) = Inr s" "in_range (chatMessages st) s"
      "s = int (length (chatMessages st)) - 1 \<or> \<not> System (chatMessages st ! nat s)" by blast
    with assms(1) ev show ?thesis
      by (auto simp: Update_def Let_def SetContent_def stops_at_def)
  qed
qed

text \<open>
  C3, as the code has it. In selection mode, from an index within \<open>[0, len-1]\<close>,
  every sequence of up and down keys runs without a panic, leaves the log and the
  mode as they were and keeps the index within \<open>[0, len-1]\<close>; after the last key
  the index is on a non-system message or at the boundary that key moves towards
  (index 0 for up, \<open>len-1\<close> for down), where the loop stops even on a system
  message.
\<close>

theorem navigation_stays_in_range:
  assumes "isSelectMode m" and "in_range (chatMessages st) (selectedMessage m)"
    and "set evs \<subseteq> {KeyMsg KeyUp, KeyMsg KeyDown}"
  shows "\<exists>m'. Updates e st m evs = Inr (st, m') \<and> isSelectMode m'
           \<and> in_range (chatMessages st) (selectedMessage m')
           \<and> (evs \<noteq> [] \<longrightarrow> stops_at (chatMessages st) (last evs) (selectedMessage m'))"
  using assms
proof (induction evs arbitrary: m)
  case Nil
  then show ?case by simp
next
  case (Cons ev evs)
  from Cons.prems(3) have ev: "ev = KeyMsg KeyUp \<or> ev = KeyMsg KeyDown"
    and evs: "set evs \<subseteq> {KeyMsg KeyUp, KeyMsg KeyDown}" by auto
  from Update_navigate [OF Cons.prems(1,2) ev, of e] obtain m1 c where
    step: "Update e st m ev = Inr (st, m1, c)" and sel: "isSelectMode m1"
    and rng: "in_range (chatMessages st) (selectedMessage m1)"
    and stop: "stops_at (chatMessages st) ev (selectedMessage m1)" by blast
  from Cons.IH [OF sel rng evs] obtain m' where
    run: "Updates e st m1 evs = Inr (st, m')" and sel': "isSelectMode m'"
    and rng': "in_range (chatMessages st) (selectedMessage m')"
    and stop': "evs \<noteq> [] \<longrightarrow> stops_at (chatMessages st) (last evs) (selectedMessage m')" by blast
  show ?case
  proof (cases "evs = []")
    case True
    with step run sel rng stop show ?thesis by simp
  next
    case False
    with step run sel' rng' stop' show ?thesis by simp
  qed
qed

lemma bob_selecting_mode:
  "isSelectMode bob_selecting" "selectedMessage bob_selecting = 1"
  by (simp_all add: bob_selecting_def)

theorem navigation_stays_in_range_witness:
  "isSelectMode bob_selecting
   \<and> in_range (chatMessages bob_state) (selectedMessage bob_selecting)
   \<and> set [KeyMsg KeyDown, KeyMsg KeyUp, KeyMsg KeyUp] \<subseteq> {KeyMsg KeyUp, KeyMsg KeyDown}
   \<and> (\<exists>m'. Updates demo_env bob_state bob_selecting [KeyMsg KeyDown, KeyMsg KeyUp, KeyMsg KeyUp]
              = Inr (bob_state, m')
          \<and> in_range (chatMessages bob_state) (selectedMessage m')
          \<and> stops_at (chatMessages bob_state) (KeyMsg KeyUp) (selectedMessage m'))"
proof -
  have h1: "isSelectMode bob_selecting" by (rule bob_selecting_mode)
  have h2: "in_range (chatMessages bob_state) (selectedMessage bob_selecting)"
    by (simp add: in_range_def bob_selecting_mode chatMessages_bob_state)
  have h3: "set [KeyMsg KeyDown, KeyMsg KeyUp, KeyMsg KeyUp] \<subseteq> {KeyMsg KeyUp, KeyMsg KeyDown}"
    by simp
  from navigation_stays_in_range [OF h1 h2 h3, of demo_env] obtain m' where
    a: "Updates demo_env bob_state bob_selecting [KeyMsg KeyDown, KeyMsg KeyUp, KeyMsg KeyUp]
          = Inr (bob_state, m')"
    and b: "in_range (chatMessages bob_state) (selectedMessage m')"
    and c: "[KeyMsg KeyDown, KeyMsg KeyUp, KeyMsg KeyUp] \<noteq> [] \<longrightarrow>
          stops_at (chatMessages bob_state) (last [KeyMsg KeyDown, KeyMsg KeyUp, KeyMsg KeyUp])
            (selectedMessage m')"
    by blast
  from c have c': "stops_at (chatMessages bob_state) (KeyMsg KeyUp) (selectedMessage m')"
    by simp
  from h1 h2 h3 a b c' show ?thesis by blast
qed

text \<open>
  C3 as stated fails: the log is the welcome (a system message) followed by
  alice's message, the selection is on alice's message, and one up key moves it to
  index 0, the system message.
\<close>

theorem navigation_reaches_system_message:
  "isSelectMode bob_selecting
   \<and> in_range (chatMessages hello_state) (selectedMessage bob_selecting)
   \<and> \<not> System (chatMessages hello_state ! 1)
   \<and> selected_of (Update demo_env hello_state bob_selecting (KeyMsg KeyUp)) = Some 0
   \<and> System (chatMessages hello_state ! 0)"
  by (simp add: bob_selecting_mode in_range_def chatMessages_hello_state selected_of_def
      model_of_def Update_def Let_def KeyUp_loop.simps SetContent_def)

section \<open>Entering selection mode\<close>

lemma spec_newest_last:
  assumes "msgs \<noteq> []" and "\<not> System (last msgs)"
  shows "spec_newest_non_system msgs = Some (length msgs - 1)"
proof -
  from assms(1) obtain k where k: "length msgs = Suc k" by (cases msgs) auto
  with assms have "\<not> System (msgs ! k)" by (simp add: last_conv_nth)
  with k show ?thesis by (simp add: spec_newest_non_system_def)
qed

lemma KeyUp_loop_all_system:
  "list_all System msgs \<Longrightarrow> in_range msgs sel \<Longrightarrow> KeyUp_loop msgs sel = Inr 0"
proof (induction msgs sel rule: KeyUp_loop.induct)
  case (1 msgs sel)
  let ?s = "if sel > 0 then sel - 1 else sel"
  have rng: "in_range msgs ?s" using "1.prems" by (auto simp: in_range_def)
  show ?case
  proof (cases "?s = 0")
    case True
    then show ?thesis by (subst KeyUp_loop.simps) (simp add: Let_def)
  next
    case False
    from rng have "nat ?s < length msgs" by (auto simp: in_range_def)
    with "1.prems"(1) have sys: "System (msgs ! nat ?s)"
      unfolding list_all_length by blast
    from False rng sys have "KeyUp_loop msgs ?s = Inr 0"
      by (intro "1.IH" "1.prems"(1)) (auto simp: in_range_def)
    with False rng sys show ?thesis
      by (subst KeyUp_loop.simps) (auto simp: in_range_def Let_def)
  qed
qed

lemma KeyDown_loop_at_end:
  "msgs \<noteq> [] \<Longrightarrow> KeyDown_loop msgs (int (length msgs) - 1) = Inr (int (length msgs) - 1)"
  by (subst KeyDown_loop.simps) (simp add: Let_def)

text \<open>
  C4, as the code has it. The tab key that enters selection mode sets the index to
  \<open>len-1\<close>, the last message of the log, system message or not. That is the most
  recent non-system message exactly when the last message is not a system message.
  When the log is non-empty and holds system messages only, the last of them is
  selected; from there the down key leaves the index where it is and the up key
  moves it to index 0.
\<close>

theorem toggle_selects_last_message:
  assumes "\<not> isSelectMode m"
  shows "\<exists>m'. Update e st m (KeyMsg KeyTab) = Inr (st, m', Batch)
           \<and> isSelectMode m'
           \<and> selectedMessage m' = int (length (chatMessages st)) - 1
           \<and> (chatMessages st \<noteq> [] \<and> \<not> System (last (chatMessages st)) \<longrightarrow>
                spec_newest_non_system (chatMessages st) = Some (nat (selectedMessage m')))
           \<and> (chatMessages st \<noteq> [] \<and> list_all System (chatMessages st) \<longrightarrow>
                selected_of (Update e st m' (KeyMsg KeyDown)) = Some (selectedMessage m')
                \<and> selected_of (Update e st m' (KeyMsg KeyUp)) = Some 0)"
proof -
  let ?n = "int (length (chatMessages st)) - 1"
  let ?m0 = "m\<lparr>textarea := textarea_Update e (textarea m) (KeyMsg KeyTab),
               viewport := viewport_Update e (viewport m) (KeyMsg KeyTab)\<rparr>"
  let ?m' = "?m0\<lparr>isSelectMode := True,
                  textarea := (textarea ?m0)\<lparr>ta_focus := False\<rparr>,
                  selectedMessage := ?n\<rparr>"
  have step: "Update e st m (KeyMsg KeyTab) = Inr (st, ?m', Batch)"
    using assms by (simp add: Update_def Let_def)
  have mode: "isSelectMode ?m'" by simp
  have idx: "selectedMessage ?m' = ?n" by simp
  have newest: "spec_newest_non_system (chatMessages st) = Some (nat (selectedMessage ?m'))"
    if "chatMessages st \<noteq> [] \<and> \<not> System (last (chatMessages st))"
    using that spec_newest_last [of "chatMessages st"] by (simp add: nat_diff_distrib')
  have down: "selected_of (Update e st ?m' (KeyMsg KeyDown)) = Some (selectedMessage ?m')"
    if "chatMessages st \<noteq> [] \<and> list_all System (chatMessages st)"
    using that KeyDown_loop_at_end [of "chatMessages st"]
    by (simp add: selected_of_def model_of_def Update_def Let_def SetContent_def)
  have up: "selected_of (Update e st ?m' (KeyMsg KeyUp)) = Some 0"
    if "chatMessages st \<noteq> [] \<and> list_all System (chatMessages st)"
  proof -
    from that have "in_range (chatMessages st) ?n" by (simp add: in_range_def)
    from KeyUp_loop_all_system [OF _ this] that show ?thesis
      by (simp add: selected_of_def model_of_def Update_def Let_def SetContent_def)
  qed
  from step mode idx newest down up show ?thesis by blast
qed

lemma chatMessages_lobby_state:
  "chatMessages lobby_state =
     [\<lparr>Username = ''Anonymous'', Timestamp = ''12:00'', PubKey = ''N/A'',
       Content = ''Welcome to letsgosky.social'', Upvotes = 0, Downvotes = 0,
       UniqueID = [], System = True\<rparr>,
      \<lparr>Username = ''Anonymous'', Timestamp = ''12:00'', PubKey = ''N/A'',
       Content = ''Silly goober bob has made the mistake of joining the cult'',
       Upvotes = 0, Downvotes = 0, UniqueID = [], System = True\<rparr>]"
  by (simp add: lobby_state_def teaHandler_def Let_def addMessage_def incrementUsers_def
      chatMessages_main_state demo_env_def bob_def)

lemma lobby_model_mode:
  "isSelectMode lobby_model = False" "selectedMessage lobby_model = 0"
  "lastMessageCount lobby_model = 0" "session lobby_model = bob"
  by (simp_all add: lobby_model_def teaHandler_def Let_def SetContent_def)

theorem toggle_selects_last_message_witness:
  "\<not> isSelectMode lobby_model
   \<and> chatMessages lobby_state \<noteq> [] \<and> list_all System (chatMessages lobby_state)
   \<and> (\<exists>m'. Update demo_env lobby_state lobby_model (KeyMsg KeyTab) = Inr (lobby_state, m', Batch)
          \<and> selectedMessage m' = 1
          \<and> selected_of (Update demo_env lobby_state m' (KeyMsg KeyDown)) = Some 1
          \<and> selected_of (Update demo_env lobby_state m' (KeyMsg KeyUp)) = Some 0)
   \<and> \<not> isSelectMode (bob_typed ''hi'')
   \<and> chatMessages hello_state \<noteq> [] \<and> \<not> System (last (chatMessages hello_state))
   \<and> (\<exists>m'. Update demo_env hello_state (bob_typed ''hi'') (KeyMsg KeyTab)
              = Inr (hello_state, m', Batch)
          \<and> selectedMessage m' = 1
          \<and> spec_newest_non_system (chatMessages hello_state) = Some 1)"
proof -
  have h1: "\<not> isSelectMode lobby_model" by (simp add: lobby_model_mode)
  have h2: "chatMessages lobby_state \<noteq> []" "list_all System (chatMessages lobby_state)"
    by (simp_all add: chatMessages_lobby_state)
  have n: "int (length (chatMessages lobby_state)) - 1 = 1"
    by (simp add: chatMessages_lobby_state)
  from toggle_selects_last_message [OF h1, of demo_env lobby_state] obtain m' where
    a: "Update demo_env lobby_state lobby_model (KeyMsg KeyTab) = Inr (lobby_state, m', Batch)"
    and b: "selectedMessage m' = int (length (chatMessages lobby_state)) - 1"
    and c: "chatMessages lobby_state \<noteq> [] \<and> list_all System (chatMessages lobby_state) \<longrightarrow>
              selected_of (Update demo_env lobby_state m' (KeyMsg KeyDown)) = Some (selectedMessage m')
              \<and> selected_of (Update demo_env lobby_state m' (KeyMsg KeyUp)) = Some 0"
    by blast
  from b n have b': "selectedMessage m' = 1" by simp
  from c h2 b' have c': "selected_of (Update demo_env lobby_state m' (KeyMsg KeyDown)) = Some 1"
    "selected_of (Update demo_env lobby_state m' (KeyMsg KeyUp)) = Some 0" by simp_all
  have first: "\<exists>m'. Update demo_env lobby_state lobby_model (KeyMsg KeyTab) = Inr (lobby_state, m', Batch)
          \<and> selectedMessage m' = 1
          \<and> selected_of (Update demo_env lobby_state m' (KeyMsg KeyDown)) = Some 1
          \<and> selected_of (Update demo_env lobby_state m' (KeyMsg KeyUp)) = Some 0"
    using a b' c' by blast
  have g1: "\<not> isSelectMode (bob_typed ''hi'')" by (simp add: bob_typed_def bob_model_mode)
  have g2: "chatMessages hello_state \<noteq> []" "\<not> System (last (chatMessages hello_state))"
    by (simp_all add: chatMessages_hello_state)
  have k: "int (length (chatMessages hello_state)) - 1 = 1"
    by (simp add: chatMessages_hello_state)
  from toggle_selects_last_message [OF g1, of demo_env hello_state] obtain m2 where
    a2: "Update demo_env hello_state (bob_typed ''hi'') (KeyMsg KeyTab) = Inr (hello_state, m2, Batch)"
    and b2: "selectedMessage m2 = int (length (chatMessages hello_state)) - 1"
    and c2: "chatMessages hello_state \<noteq> [] \<and> \<not> System (last (chatMessages hello_state)) \<longrightarrow>
              spec_newest_non_system (chatMessages hello_state) = Some (nat (selectedMessage m2))"
    by blast
  from b2 k have b2': "selectedMessage m2 = 1" by simp
  from c2 g2 b2' have c2': "spec_newest_non_system (chatMessages hello_state) = Some 1" by simp
  have second: "\<exists>m'. Update demo_env hello_state (bob_typed ''hi'') (KeyMsg KeyTab)
              = Inr (hello_state, m', Batch)
          \<and> selectedMessage m' = 1
          \<and> spec_newest_non_system (chatMessages hello_state) = Some 1"
    using a2 b2' c2' by blast
  from h1 h2 first g1 g2 second show ?thesis by blast
qed

text \<open>
  C4 as stated fails: bob has just connected, so the last entry of the log is his
  join notice, a system message. The tab key selects index 2, that notice, while
  the most recent non-system message is alice's at index 1.
\<close>

theorem toggle_selects_system_message:
  "\<not> isSelectMode bob_model
   \<and> selected_of (Update demo_env bob_state bob_model (KeyMsg KeyTab)) = Some 2
   \<and> System (chatMessages bob_state ! 2)
   \<and> spec_newest_non_system (chatMessages bob_state) = Some 1"
  by (simp add: bob_model_mode selected_of_def model_of_def Update_def Let_def
      chatMessages_bob_state spec_newest_non_system_def numeral_3_eq_3)

section \<open>The refresh tick\<close>

text \<open>The rendering reads only the mode and the index of the model.\<close>

lemma formatMessages_loop_fields:
  assumes "isSelectMode m1 = isSelectMode m2" and "selectedMessage m1 = selectedMessage m2"
  shows "formatMessages_loop m1 i msgs = formatMessages_loop m2 i msgs"
proof (induction msgs arbitrary: i)
  case Nil
  show ?case by simp
next
  case (Cons msg rest)
  show ?case
    by (simp only: formatMessages_loop.simps assms Cons.IH)
qed

lemma formatMessages_fields:
  assumes "isSelectMode m1 = isSelectMode m2" and "selectedMessage m1 = selectedMessage m2"
  shows "formatMessages m1 msgs = formatMessages m2 msgs"
  unfolding formatMessages_def by (rule formatMessages_loop_fields [OF assms])

text \<open>
  C7, as the code has it. On a refresh tick, when the length of the log differs
  from \<open>lastMessageCount\<close>, the controller renders a fresh snapshot into the
  viewport, sets \<open>lastMessageCount\<close> to the length and sets the index to \<open>len-1\<close>,
  the last message, system message or not; that is the newest non-system message
  exactly when the last message is not a system message. When the length is
  unchanged, mode, index and \<open>lastMessageCount\<close> stay as they were.
\<close>

theorem refresh_selects_last_message:
  "(int (length (chatMessages st)) \<noteq> lastMessageCount m \<longrightarrow>
      (\<exists>m'. Update e st m messagesUpdatedMsg = Inr (st, m', Batch)
           \<and> vp_content (viewport m') = formatMessages m (getMessages st)
           \<and> lastMessageCount m' = int (length (chatMessages st))
           \<and> selectedMessage m' = int (length (chatMessages st)) - 1
           \<and> isSelectMode m' = isSelectMode m
           \<and> (chatMessages st \<noteq> [] \<and> \<not> System (last (chatMessages st)) \<longrightarrow>
                spec_newest_non_system (chatMessages st) = Some (nat (selectedMessage m')))))
   \<and> (int (length (chatMessages st)) = lastMessageCount m \<longrightarrow>
      (\<exists>m'. Update e st m messagesUpdatedMsg = Inr (st, m', Batch)
           \<and> lastMessageCount m' = lastMessageCount m
           \<and> selectedMessage m' = selectedMessage m
           \<and> isSelectMode m' = isSelectMode m))"
proof (intro conjI impI)
  define m2 where "m2 =
    (if \<not> isSelectMode m
     then m\<lparr>textarea := textarea_Update e (textarea m) messagesUpdatedMsg\<rparr> else m)
      \<lparr>viewport := viewport_Update e
         (viewport (if \<not> isSelectMode m
                    then m\<lparr>textarea := textarea_Update e (textarea m) messagesUpdatedMsg\<rparr>
                    else m)) messagesUpdatedMsg\<rparr>"
  have fields: "isSelectMode m2 = isSelectMode m" "selectedMessage m2 = selectedMessage m"
    "lastMessageCount m2 = lastMessageCount m"
    by (simp_all add: m2_def)
  have unfold: "Update e st m messagesUpdatedMsg =
      (if int (length (chatMessages st)) \<noteq> lastMessageCount m2
       then Inr (st, (SetContent m2 (formatMessages m2 (getMessages st)))
                       \<lparr>lastMessageCount := int (length (chatMessages st)),
                        selectedMessage := int (length (chatMessages st)) - 1\<rparr>, Batch)
       else Inr (st, m2, Batch))"
    unfolding Update_def Let_def m2_def getMessages_def by (simp only: msg.case)
  {
    assume changed: "int (length (chatMessages st)) \<noteq> lastMessageCount m"
    define m' where "m' = (SetContent m2 (formatMessages m2 (getMessages st)))
                 \<lparr>lastMessageCount := int (length (chatMessages st)),
                  selectedMessage := int (length (chatMessages st)) - 1\<rparr>"
    have step: "Update e st m messagesUpdatedMsg = Inr (st, m', Batch)"
      using changed fields(3) by (simp add: unfold m'_def)
    have content: "vp_content (viewport m') = formatMessages m (getMessages st)"
      using formatMessages_fields [OF fields(1,2)] by (simp add: m'_def SetContent_def)
    have rest: "lastMessageCount m' = int (length (chatMessages st))"
      "selectedMessage m' = int (length (chatMessages st)) - 1"
      "isSelectMode m' = isSelectMode m"
      using fields by (simp_all add: m'_def SetContent_def)
    have newest: "spec_newest_non_system (chatMessages st) = Some (nat (selectedMessage m'))"
      if "chatMessages st \<noteq> [] \<and> \<not> System (last (chatMessages st))"
      using that spec_newest_last [of "chatMessages st"] rest(2)
      by (simp add: nat_diff_distrib')
    have "Update e st m messagesUpdatedMsg = Inr (st, m', Batch)
           \<and> vp_content (viewport m') = formatMessages m (getMessages st)
           \<and> lastMessageCount m' = int (length (chatMessages st))
           \<and> selectedMessage m' = int (length (chatMessages st)) - 1
           \<and> isSelectMode m' = isSelectMode m
           \<and> (chatMessages st \<noteq> [] \<and> \<not> System (last (chatMessages st)) \<longrightarrow>
                spec_newest_non_system (chatMessages st) = Some (nat (selectedMessage m')))"
      using step content rest newest by simp
    then show "\<exists>m'. Update e st m messagesUpdatedMsg = Inr (st, m', Batch)
           \<and> vp_content (viewport m') = formatMessages m (getMessages st)
           \<and> lastMessageCount m' = int (length (chatMessages st))
           \<and> selectedMessage m' = int (length (chatMessages st)) - 1
           \<and> isSelectMode m' = isSelectMode m
           \<and> (chatMessages st \<noteq> [] \<and> \<not> System (last (chatMessages st)) \<longrightarrow>
                spec_newest_non_system (chatMessages st) = Some (nat (selectedMessage m')))"
      by (rule exI)
  }
  {
    assume same: "int (length (chatMessages st)) = lastMessageCount m"
    have step: "Update e st m messagesUpdatedMsg = Inr (st, m2, Batch)"
      using same fields(3) by (simp add: unfold)
    have "Update e st m messagesUpdatedMsg = Inr (st, m2, Batch)
           \<and> lastMessageCount m2 = lastMessageCount m
           \<and> selectedMessage m2 = selectedMessage m
           \<and> isSelectMode m2 = isSelectMode m"
      using step fields by simp
    then show "\<exists>m'. Update e st m messagesUpdatedMsg = Inr (st, m', Batch)
           \<and> lastMessageCount m' = lastMessageCount m
           \<and> selectedMessage m' = selectedMessage m
           \<and> isSelectMode m' = isSelectMode m"
      by (rule exI)
  }
qed

lemma bob_browsing_fields:
  "isSelectMode bob_browsing" "selectedMessage bob_browsing = 1"
  "lastMessageCount bob_browsing = 3"
  by (simp_all add: bob_browsing_def bob_selecting_def)

theorem refresh_selects_last_message_witness:
  "int (length (chatMessages hello_state)) \<noteq> lastMessageCount bob_model
   \<and> chatMessages hello_state \<noteq> [] \<and> \<not> System (last (chatMessages hello_state))
   \<and> (\<exists>m'. Update demo_env hello_state bob_model messagesUpdatedMsg = Inr (hello_state, m', Batch)
          \<and> lastMessageCount m' = 2 \<and> selectedMessage m' = 1
          \<and> spec_newest_non_system (chatMessages hello_state) = Some 1)
   \<and> int (length (chatMessages bob_state)) = lastMessageCount bob_browsing
   \<and> (\<exists>m'. Update demo_env bob_state bob_browsing messagesUpdatedMsg = Inr (bob_state, m', Batch)
          \<and> lastMessageCount m' = 3 \<and> selectedMessage m' = 1 \<and> isSelectMode m')"
proof -
  have h1: "int (length (chatMessages hello_state)) \<noteq> lastMessageCount bob_model"
    by (simp add: chatMessages_hello_state bob_model_mode)
  have h2: "chatMessages hello_state \<noteq> [] \<and> \<not> System (last (chatMessages hello_state))"
    by (simp add: chatMessages_hello_state)
  have n: "int (length (chatMessages hello_state)) = 2" by (simp add: chatMessages_hello_state)
  from refresh_selects_last_message [of hello_state bob_model demo_env] h1 obtain m' where
    a: "Update demo_env hello_state bob_model messagesUpdatedMsg = Inr (hello_state, m', Batch)"
    and b: "lastMessageCount m' = int (length (chatMessages hello_state))"
    and c: "selectedMessage m' = int (length (chatMessages hello_state)) - 1"
    and d: "chatMessages hello_state \<noteq> [] \<and> \<not> System (last (chatMessages hello_state)) \<longrightarrow>
              spec_newest_non_system (chatMessages hello_state) = Some (nat (selectedMessage m'))"
    by blast
  from b c n have bc: "lastMessageCount m' = 2" "selectedMessage m' = 1" by simp_all
  from d h2 bc have d': "spec_newest_non_system (chatMessages hello_state) = Some 1" by simp
  have first: "\<exists>m'. Update demo_env hello_state bob_model messagesUpdatedMsg = Inr (hello_state, m', Batch)
          \<and> lastMessageCount m' = 2 \<and> selectedMessage m' = 1
          \<and> spec_newest_non_system (chatMessages hello_state) = Some 1"
    using a bc d' by blast
  have g: "int (length (chatMessages bob_state)) = lastMessageCount bob_browsing"
    by (simp add: chatMessages_bob_state bob_browsing_fields)
  from refresh_selects_last_message [of bob_state bob_browsing demo_env] g obtain m2 where
    a2: "Update demo_env bob_state bob_browsing messagesUpdatedMsg = Inr (bob_state, m2, Batch)"
    and b2: "lastMessageCount m2 = lastMessageCount bob_browsing"
    and c2: "selectedMessage m2 = selectedMessage bob_browsing"
    and d2: "isSelectMode m2 = isSelectMode bob_browsing"
    by blast
  have second: "\<exists>m'. Update demo_env bob_state bob_browsing messagesUpdatedMsg = Inr (bob_state, m', Batch)
          \<and> lastMessageCount m' = 3 \<and> selectedMessage m' = 1 \<and> isSelectMode m'"
    using a2 b2 c2 d2 by (simp add: bob_browsing_fields)
  from h1 h2 first g second show ?thesis by blast
qed

text \<open>
  C7 as stated fails: bob's join notice, a system message, has arrived as entry 2
  of the log. The refresh tick sets the index to 2, that notice, while the newest
  non-system message is alice's at index 1.
\<close>

theorem refresh_selects_system_message:
  "int (length (chatMessages bob_state)) \<noteq> lastMessageCount bob_model
   \<and> selected_of (Update demo_env bob_state bob_model messagesUpdatedMsg) = Some 2
   \<and> System (chatMessages bob_state ! 2)
   \<and> spec_newest_non_system (chatMessages bob_state) = Some 1"
  by (simp add: bob_model_mode selected_of_def model_of_def Update_def Let_def getMessages_def
      SetContent_def chatMessages_bob_state spec_newest_non_system_def numeral_3_eq_3)

section \<open>Submitting text\<close>

lemma addMessage_appends:
  "chatMessages (addMessage sha now st sess content system) =
     chatMessages st @
       [\<lparr>Username = (case sess of None \<Rightarrow> ''Anonymous'' | Some s \<Rightarrow> User s),
         Timestamp = now,
         PubKey = (case sess of
                     None \<Rightarrow> ''N/A''
                   | Some s \<Rightarrow> (case PublicKey s of None \<Rightarrow> ''N/A'' | Some key \<Rightarrow> sha key)),
         Content = content, Upvotes = 0, Downvotes = 0,
         UniqueID = (if system then []
                     else sha ((case sess of None \<Rightarrow> ''Anonymous'' | Some s \<Rightarrow> User s)
                               @ now @ content)),
         System = system\<rparr>]"
  by (simp add: addMessage_def Let_def generateUniqueMessageID_def)




lemma demo_env_fields:
  "sha256_hex demo_env = demo_digest" "time_now demo_env = ''12:00''"
  "textarea_Update demo_env = ta_enter" "viewport_Update demo_env = vp_ignore"
  by (simp_all add: demo_env_def)





section \<open>No validation in addMessage\<close>

text \<open>
  C5, as the code has it. \<open>addMessage\<close> validates nothing and has no error result:
  for every call, system or not, and every content, empty or of any length, it
  keeps the messages already in the log and appends exactly one message carrying
  that content.
\<close>

theorem addMessage_always_appends:
  "length (chatMessages (addMessage sha now st sess content system))
     = length (chatMessages st) + 1
   \<and> take (length (chatMessages st)) (chatMessages (addMessage sha now st sess content system))
     = chatMessages st
   \<and> Content (last (chatMessages (addMessage sha now st sess content system))) = content
   \<and> System (last (chatMessages (addMessage sha now st sess content system))) = system"
  by (simp add: addMessage_appends)

text \<open>
  C5 as stated fails: a non-system call with content of 281 characters, and one
  with empty content, each return normally and leave the log one message longer.
\<close>

theorem addMessage_accepts_any_length:
  "length (replicate 281 (CHR ''x'')) = 281
   \<and> length (chatMessages bob_state) = 3
   \<and> length (chatMessages
        (addMessage demo_digest ''12:01'' bob_state (Some bob) (replicate 281 (CHR ''x'')) False)) = 4
   \<and> Content (last (chatMessages
        (addMessage demo_digest ''12:01'' bob_state (Some bob) (replicate 281 (CHR ''x'')) False)))
       = replicate 281 (CHR ''x'')
   \<and> length (chatMessages (addMessage demo_digest ''12:01'' bob_state (Some bob) [] False)) = 4"
  by (simp add: addMessage_appends chatMessages_bob_state)

section \<open>Message ids and system messages\<close>

text \<open>
  What \<open>addMessage\<close> assigns: a non-system message gets the digest of user name,
  timestamp and content, a function of these three alone; a system message keeps
  the empty id.
\<close>

lemma addMessage_id:
  "UniqueID (last (chatMessages (addMessage sha now st sess content system))) =
     (if system then []
      else sha ((case sess of None \<Rightarrow> ''Anonymous'' | Some s \<Rightarrow> User s) @ now @ content))"
  by (simp add: addMessage_appends)

lemma System_voted:
  "System (add_new_vote voteType (remove_previous_vote prev msg)) = System msg"
  by (simp add: add_new_vote_def remove_previous_vote_def split: option.splits)

lemma vote_loop_spares_system:
  assumes "messageID \<noteq> []" and "\<forall>msg \<in> set msgs. System msg \<longrightarrow> UniqueID msg = []"
    and "vote_loop uv messageID voteType msgs = Some msgs'"
  shows "filter System msgs' = filter System msgs"
  using assms(2,3)
proof (induction msgs arbitrary: msgs')
  case Nil
  then show ?case by simp
next
  case (Cons msg rest)
  show ?case
  proof (cases "UniqueID msg = messageID")
    case True
    with Cons.prems(1) assms(1) have "\<not> System msg" by auto
    with True Cons.prems(2) show ?thesis by (auto simp: System_voted)
  next
    case False
    with Cons.prems(2) obtain r where r: "vote_loop uv messageID voteType rest = Some r"
      and m: "msgs' = msg # r" by auto
    from Cons.prems(1) have "\<forall>msg \<in> set rest. System msg \<longrightarrow> UniqueID msg = []" by simp
    from Cons.IH [OF this r] m show ?thesis by simp
  qed
qed

text \<open>
  A vote for a non-empty id leaves every system message as it is, as long as
  system messages carry the empty id, which is how \<open>addMessage\<close> creates them.
\<close>

lemma vote_nonempty_id_spares_system:
  assumes "messageID \<noteq> []"
    and "\<forall>msg \<in> set (chatMessages st). System msg \<longrightarrow> UniqueID msg = []"
  shows "filter System (chatMessages (fst (voteMessage st voter messageID voteType)))
           = filter System (chatMessages st)"
proof (cases "userVotes st (User voter)")
  case None
  then show ?thesis
    using vote_loop_spares_system [OF assms(1,2), of Map.empty voteType]
    by (auto simp: voteMessage_def Let_def split: option.splits)
next
  case (Some uv)
  then show ?thesis
    using vote_loop_spares_system [OF assms(1,2), of uv voteType]
    by (auto simp: voteMessage_def Let_def split: option.splits)
qed

lemma final_log_single: "final_log (Updates e st m [x]) = log_of (Update e st m x)"
  by (auto simp: final_log_def log_of_def state_of_def split: sum.splits)

text \<open>
  C8 at a failing input. The log holds the welcome, a system message with the
  empty id and no votes. A vote with the empty id and vote type 1 returns no error
  and raises the welcome's upvote counter to 1. The controller issues that call:
  bob connects, presses tab, which selects his join notice (the last message, a
  system message with the empty id), and presses \<open>u\<close>; the vote goes to the first
  message with the empty id, the welcome.
\<close>

theorem vote_changes_system_message:
  "System (chatMessages main_state ! 0)
   \<and> UniqueID (chatMessages main_state ! 0) = []
   \<and> Upvotes (chatMessages main_state ! 0) = 0
   \<and> snd (voteMessage main_state bob [] 1) = None
   \<and> Upvotes (chatMessages (fst (voteMessage main_state bob [] 1)) ! 0) = 1
   \<and> map_option (map System) (final_log (Updates demo_env lobby_state lobby_model []))
       = Some [True, True]
   \<and> map_option (map Upvotes) (final_log (Updates demo_env lobby_state lobby_model []))
       = Some [0, 0]
   \<and> map_option (map Upvotes)
        (final_log (Updates demo_env lobby_state lobby_model [KeyMsg KeyTab, KeyMsg (KeyRunes ''u'')]))
       = Some [1, 0]"
proof -
  have votes: "userVotes main_state = Map.empty" "userVotes lobby_state = Map.empty"
    by (simp_all add: main_state_def lobby_state_def teaHandler_def Let_def addMessage_def
        incrementUsers_def init_state_def)
  have direct: "snd (voteMessage main_state bob [] 1) = None"
    "Upvotes (chatMessages (fst (voteMessage main_state bob [] 1)) ! 0) = 1"
    by (simp_all add: voteMessage_def Let_def votes map_get_def chatMessages_main_state
        add_new_vote_def remove_previous_vote_def)
  have tab: "Update demo_env lobby_state lobby_model (KeyMsg KeyTab) =
      Inr (lobby_state,
           lobby_model\<lparr>isSelectMode := True,
                        textarea := (textarea lobby_model)\<lparr>ta_focus := False\<rparr>,
                        selectedMessage := 1\<rparr>, Batch)"
    by (simp add: Update_def Let_def lobby_model_mode demo_env_fields ta_enter_def vp_ignore_def
        chatMessages_lobby_state)
  have vote: "voteMessage lobby_state bob [] 1 =
      (lobby_state\<lparr>chatMessages := (chatMessages lobby_state)
                      [0 := (chatMessages lobby_state ! 0)\<lparr>Upvotes := 1\<rparr>],
                    userVotes := [''bob'' \<mapsto> [[] \<mapsto> 1]]\<rparr>, None)"
    by (simp add: voteMessage_def Let_def votes map_get_def chatMessages_lobby_state
        add_new_vote_def remove_previous_vote_def bob_def)
  have u: "log_of (Update demo_env lobby_state
             (lobby_model\<lparr>isSelectMode := True,
                          textarea := (textarea lobby_model)\<lparr>ta_focus := False\<rparr>,
                          selectedMessage := 1\<rparr>) (KeyMsg (KeyRunes ''u'')))
           = Some ((chatMessages lobby_state)[0 := (chatMessages lobby_state ! 0)\<lparr>Upvotes := 1\<rparr>])"
    by (simp add: log_of_def state_of_def Update_def Let_def Update_vote_def lobby_model_mode
        chatMessages_lobby_state vote split: sum.splits)
  have both: "Updates demo_env lobby_state lobby_model [KeyMsg KeyTab, KeyMsg (KeyRunes ''u'')]
      = Updates demo_env lobby_state
          (lobby_model\<lparr>isSelectMode := True,
                       textarea := (textarea lobby_model)\<lparr>ta_focus := False\<rparr>,
                       selectedMessage := 1\<rparr>) [KeyMsg (KeyRunes ''u'')]"
    by (simp add: tab)
  have run: "final_log (Updates demo_env lobby_state lobby_model
               [KeyMsg KeyTab, KeyMsg (KeyRunes ''u'')])
           = Some ((chatMessages lobby_state)[0 := (chatMessages lobby_state ! 0)\<lparr>Upvotes := 1\<rparr>])"
    by (simp only: both final_log_single u)
  have first_entry: "System (chatMessages main_state ! 0)" "UniqueID (chatMessages main_state ! 0) = []"
    "Upvotes (chatMessages main_state ! 0) = 0"
    by (simp_all add: chatMessages_main_state)
  have idle_log: "map_option (map System) (final_log (Updates demo_env lobby_state lobby_model []))
       = Some [True, True]"
    "map_option (map Upvotes) (final_log (Updates demo_env lobby_state lobby_model []))
       = Some [0, 0]"
    by (simp_all add: final_log_def chatMessages_lobby_state)
  have voted_log: "map_option (map Upvotes)
        (final_log (Updates demo_env lobby_state lobby_model [KeyMsg KeyTab, KeyMsg (KeyRunes ''u'')]))
       = Some [1, 0]"
    unfolding run by (simp add: chatMessages_lobby_state)
  show ?thesis
    by (intro conjI; fact first_entry direct idle_log voted_log)
qed


end
